theory Spec2Isabelle
  imports Main "HOL-Library.Word" "HOL-Library.Sublist"
begin

section \<open>Library functions used by the mover\<close>

subsection \<open>strings.Split and strings.Join\<close>

text \<open>
  \<open>strings.Split(s, sep)\<close> for a one-character separator, as in
  \<open>strings.Split(o.BlobName, string(os.PathSeparator))\<close>: a string with \<open>k\<close>
  separators gives \<open>k + 1\<close> pieces, and the empty string gives one empty piece.
\<close>

fun strings_Split :: "string \<Rightarrow> char \<Rightarrow> string list" where
  "strings_Split [] sep = [[]]"
| "strings_Split (c # cs) sep =
     (let r = strings_Split cs sep
      in if c = sep then [] # r else (c # hd r) # tl r)"

fun strings_Join :: "string list \<Rightarrow> string \<Rightarrow> string" where
  "strings_Join [] sep = []"
| "strings_Join [e] sep = e"
| "strings_Join (e # e' # es) sep = e @ sep @ strings_Join (e' # es) sep"

subsection \<open>path.Clean and path.Join\<close>

text \<open>
  \<open>path.Clean\<close> reads the path element by element. An empty element and \<open>.\<close> are
  dropped; \<open>..\<close> removes the last element written when there is one that is not itself
  a leading \<open>..\<close> (the library's test \<open>out.w > dotdot\<close>), is appended when the path is
  not rooted, and is dropped at the root; any other element is appended. The elements
  written so far are kept as a stack, the last one first.
\<close>

definition clean_elem :: "bool \<Rightarrow> string list \<Rightarrow> string \<Rightarrow> string list" where
  "clean_elem rooted out e =
     (if e = [] \<or> e = ''.'' then out
      else if e = ''..'' then
        (if out \<noteq> [] \<and> hd out \<noteq> ''..'' then tl out
         else if \<not> rooted then ''..'' # out
         else out)
      else e # out)"

definition render :: "bool \<Rightarrow> string list \<Rightarrow> string" where
  "render rooted elems = (if rooted then ''/'' else []) @ strings_Join elems ''/''"

definition path_Clean :: "string \<Rightarrow> string" where
  "path_Clean path =
     (if path = [] then ''.''
      else
        let rooted = (hd path = CHR ''/'');
            out = render rooted (rev (foldl (clean_elem rooted) [] (strings_Split path CHR ''/'')))
        in if out = [] then ''.'' else out)"

text \<open>
  \<open>path.Join\<close>: leading empty elements are ignored, the rest is joined with slashes and
  cleaned; when every element is empty the result is the empty string.
\<close>

fun path_Join :: "string list \<Rightarrow> string" where
  "path_Join [] = []"
| "path_Join (e # es) =
     (if e = [] then path_Join es else path_Clean (strings_Join (e # es) ''/''))"

text \<open>
  The shape of a cleaned path, as a predicate on the stack of elements (last element
  first): no element is empty, is \<open>.\<close> or holds a slash, and \<open>..\<close> occurs only at
  the start of a path that is not rooted.
\<close>

definition ok_elem :: "string \<Rightarrow> bool" where
  "ok_elem e = (e \<noteq> [] \<and> e \<noteq> ''.'' \<and> CHR ''/'' \<notin> set e)"

fun cleaned :: "bool \<Rightarrow> string list \<Rightarrow> bool" where
  "cleaned rooted [] = True"
| "cleaned rooted (t # ts) =
     (ok_elem t \<and> (t = ''..'' \<longrightarrow> \<not> rooted \<and> (\<forall>s\<in>set ts. s = ''..'')) \<and> cleaned rooted ts)"

text \<open>An ordinary directory name: not empty, not \<open>.\<close>, not \<open>..\<close>, without a slash.\<close>

definition plain_elem :: "string \<Rightarrow> bool" where
  "plain_elem e = (e \<noteq> [] \<and> e \<noteq> ''.'' \<and> e \<noteq> ''..'' \<and> CHR ''/'' \<notin> set e)"

subsection \<open>fmt.Sprintf verbs and time formatting\<close>

text \<open>\<open>%d\<close> and \<open>%o\<close> on an unsigned integer: decimal and octal digits, no padding.\<close>

fun fmt_d :: "nat \<Rightarrow> string" where
  "fmt_d n =
     (if n < 10 then [''0123456789'' ! n]
      else fmt_d (n div 10) @ [''0123456789'' ! (n mod 10)])"

fun fmt_o :: "nat \<Rightarrow> string" where
  "fmt_o n =
     (if n < 8 then [''01234567'' ! n]
      else fmt_o (n div 8) @ [''01234567'' ! (n mod 8)])"

declare fmt_d.simps [simp del] fmt_o.simps [simp del]

text \<open>
  A modification time in its civil form (years from 0 to 9999), with the zone offset in
  seconds east of UTC, and its rendering in the layout \<open>2006-01-02 15:04:05 -0700\<close>.
\<close>

record Time =
  Year :: nat
  Month :: nat
  Day :: nat
  Hour :: nat
  Minute :: nat
  Second :: nat
  ZoneOffset :: int

definition pad0 :: "nat \<Rightarrow> string \<Rightarrow> string" where
  "pad0 w s = replicate (w - length s) CHR ''0'' @ s"

definition fmt_zone :: "int \<Rightarrow> string" where
  "fmt_zone offset =
     (let zone = (if offset < 0 then - ((- offset) div 60) else offset div 60);
          sign = (if zone < 0 then CHR ''-'' else CHR ''+'');
          z = nat \<bar>zone\<bar>
      in sign # pad0 2 (fmt_d (z div 60)) @ pad0 2 (fmt_d (z mod 60)))"

definition Time_Format :: "Time \<Rightarrow> string" where
  "Time_Format t =
     pad0 4 (fmt_d (Year t)) @ ''-'' @ pad0 2 (fmt_d (Month t)) @ ''-'' @ pad0 2 (fmt_d (Day t))
     @ '' '' @ pad0 2 (fmt_d (Hour t)) @ '':'' @ pad0 2 (fmt_d (Minute t)) @ '':''
     @ pad0 2 (fmt_d (Second t)) @ '' '' @ fmt_zone (ZoneOffset t)"

section \<open>The world outside the mover\<close>

text \<open>
  A Go \<open>error\<close> value. The archive code tells a storage error from any other by a type
  assertion and reads its service code; \<open>None\<close> of type \<open>error option\<close> is Go's \<open>nil\<close>.
\<close>

datatype error = StorageError string | OtherError string

definition ServiceCodeBlobNotFound :: string where
  "ServiceCodeBlobNotFound = ''BlobNotFound''"

fun is_StorageError :: "error option \<Rightarrow> bool" where
  "is_StorageError (Some (StorageError c)) = True"
| "is_StorageError _ = False"

fun ServiceCode :: "error option \<Rightarrow> string" where
  "ServiceCode (Some (StorageError c)) = c"
| "ServiceCode _ = []"

text \<open>The fields of \<open>url.URL\<close> the code depends on.\<close>

record URL =
  Scheme :: string
  Host :: string
  Path :: string
  RawQuery :: string

text \<open>What \<open>Stat\<close> reports: size, mode bits, modification time, owner and group.\<close>

record FileInfo =
  Size :: "64 word"
  Mode :: "32 word"
  ModTime :: Time
  Uid :: "32 word"
  Gid :: "32 word"

type_synonym Metadata = "string \<rightharpoonup> string"

datatype DeleteSnapshotsOptionType =
  DeleteSnapshotsOptionNone | DeleteSnapshotsOptionInclude | DeleteSnapshotsOptionOnly

text \<open>
  The calls sent to the object store, in the order they are made. \<open>CallUpload\<close> is the
  zero-byte upload of a directory placeholder, \<open>CallUploadFileToBlockBlob\<close> the upload
  of the file content with its block size, parallelism and metadata.
\<close>

datatype call =
    CallGetAccessControl URL
  | CallUpload URL Metadata
  | CallSetAccessControl URL string
  | CallUploadFileToBlockBlob URL "64 word" "16 word" Metadata
  | CallDelete URL DeleteSnapshotsOptionType

text \<open>
  The library and the two outside systems, as parameters. \<open>url_Parse\<close> is
  \<open>url.Parse\<close> (\<open>None\<close> when it reports an error and returns a nil URL).
  \<open>os_Open\<close> gives the error of \<open>os.Open\<close> or the opened file, which is represented
  by what its \<open>Stat\<close> returns. Each answer of the filesystem and of the store may depend
  on the calls already sent to the store.
\<close>

record world =
  url_Parse :: "string \<Rightarrow> URL option"
  os_Open :: "call list \<Rightarrow> string \<Rightarrow> error + (error + FileInfo)"
  GetAccessControl :: "call list \<Rightarrow> URL \<Rightarrow> error + string"
  Upload :: "call list \<Rightarrow> URL \<Rightarrow> Metadata \<Rightarrow> error option"
  SetAccessControl :: "call list \<Rightarrow> URL \<Rightarrow> string \<Rightarrow> error option"
  UploadFileToBlockBlob ::
    "call list \<Rightarrow> URL \<Rightarrow> 64 word \<Rightarrow> 16 word \<Rightarrow> Metadata \<Rightarrow> error option"
  Delete :: "call list \<Rightarrow> URL \<Rightarrow> DeleteSnapshotsOptionType \<Rightarrow> error option"

text \<open>The \<open>err\<close> and the response of a call that returns a pair \<open>(resp, err)\<close>.\<close>

fun err_of :: "error + 'a \<Rightarrow> error option" where
  "err_of (Inl e) = Some e"
| "err_of (Inr _) = None"

fun XMsACL :: "error + string \<Rightarrow> string" where
  "XMsACL (Inr acl) = acl"
| "XMsACL (Inl _) = []"

text \<open>A function either returns or panics (a nil dereference).\<close>

datatype 'a outcome = Return 'a | Panic

section \<open>Remove\<close>

text \<open>
  The error of \<open>url.Parse\<close> is dropped (\<open>u, _ := url.Parse(...)\<close>), here and in
  Archive; the nil URL it leaves behind is dereferenced at its first use, which panics.
\<close>

record RemoveOptions =
  AccountName :: string
  ContainerName :: string
  ResourceSAS :: string
  BlobName :: string
  ExportPrefix :: string

definition Remove_url :: "RemoveOptions \<Rightarrow> string" where
  "Remove_url opts =
     (let blobPath = path_Join [RemoveOptions.ContainerName opts,
                                RemoveOptions.ExportPrefix opts,
                                RemoveOptions.BlobName opts]
      in ''https://'' @ RemoveOptions.AccountName opts @ ''.blob.core.windows.net/''
         @ blobPath @ RemoveOptions.ResourceSAS opts)"

definition Remove :: "world \<Rightarrow> RemoveOptions \<Rightarrow> call list \<times> error option outcome" where
  "Remove W opts =
     (case url_Parse W (Remove_url opts) of
        None \<Rightarrow> ([], Panic)
      | Some u \<Rightarrow>
          let blobURL = u;
              err = Delete W [] blobURL DeleteSnapshotsOptionInclude
          in ([CallDelete blobURL DeleteSnapshotsOptionInclude], Return err))"

section \<open>Archive\<close>

text \<open>
  The options of Archive. The credential and the pacer only go into the request pipeline
  and are left out. The code reads the owner and group from \<open>syscall.Stat_t\<close>, so it
  is built for a Unix system, where \<open>os.PathSeparator\<close> is the slash. Log calls and the
  deferred \<open>Close\<close> calls change no result and are left out as well.
\<close>

record ArchiveOptions =
  AccountName :: string
  ContainerName :: string
  ResourceSAS :: string
  MountRoot :: string
  BlobName :: string
  SourcePath :: string
  Parallelism :: "16 word"
  BlockSize :: "64 word"
  ExportPrefix :: string
  HNSEnabled :: bool

definition container_url :: "ArchiveOptions \<Rightarrow> string" where
  "container_url opts =
     ''https://'' @ AccountName opts @ ''.blob.core.windows.net/'' @ ContainerName opts
     @ ResourceSAS opts"

definition dfs_url :: "ArchiveOptions \<Rightarrow> string" where
  "dfs_url opts =
     ''https://'' @ AccountName opts @ ''.dfs.core.windows.net/'' @ ContainerName opts
     @ ''/'' @ BlobName opts @ ResourceSAS opts"

text \<open>
  \<open>containerURL.NewBlockBlobURL(name)\<close> appends the name to the path of a copy of the
  container URL, after a slash when the path does not end in one.
\<close>

definition appendToURLPath :: "URL \<Rightarrow> string \<Rightarrow> URL" where
  "appendToURLPath u name =
     u\<lparr>Path := (if Path u = [] \<or> last (Path u) \<noteq> CHR ''/'' then Path u @ ''/'' else Path u)
                @ name\<rparr>"

text \<open>The four generic metadata keys, written from a stat result.\<close>

definition stat_Metadata :: "Metadata \<Rightarrow> FileInfo \<Rightarrow> Metadata" where
  "stat_Metadata meta info =
     (let owner = fmt_d (unat (Uid info));
          permissions = fmt_o (unat (Mode info));
          group = fmt_d (unat (Gid info));
          modTime = Time_Format (ModTime info)
      in meta(''Permissions'' \<mapsto> permissions, ''ModTime'' \<mapsto> modTime,
              ''Owner'' \<mapsto> owner, ''Group'' \<mapsto> group))"

definition dir_Metadata :: "ArchiveOptions \<Rightarrow> FileInfo \<Rightarrow> Metadata" where
  "dir_Metadata opts dirInfo =
     (let meta = Map.empty(''hdi_isfolder'' \<mapsto> ''true'')
      in if \<not> HNSEnabled opts then stat_Metadata meta dirInfo else meta)"

text \<open>
  The test after the ACL fetch of a directory:
  \<open>stgErr, ok := err.(azblob.StorageError);
    err != nil || ok && stgErr.ServiceCode() == azblob.ServiceCodeBlobNotFound\<close>.
\<close>

definition acl_fetch_failed :: "error option \<Rightarrow> bool" where
  "acl_fetch_failed err =
     (let ok = is_StorageError err
      in err \<noteq> None \<or> ok \<and> ServiceCode err = ServiceCodeBlobNotFound)"

text \<open>
  One round of the loop over the parent directories. The result is the calls sent so
  far and either the error the function returns with (\<open>return 0, err\<close>) or the URL and
  the directory path for the next round.
\<close>

definition archive_parent ::
  "world \<Rightarrow> ArchiveOptions \<Rightarrow> call list \<Rightarrow> URL \<Rightarrow> string \<Rightarrow> string
   \<Rightarrow> call list \<times> (error option + URL \<times> string)" where
  "archive_parent W opts tr u0 dirPath0 currDir =
     (let u = u0\<lparr>Path := path_Join [Path u0, currDir]\<rparr>;
          dirURL = u;
          dirPath = path_Join [dirPath0, currDir]
      in case os_Open W tr dirPath of
           Inl err \<Rightarrow> (tr, Inl (Some err))
         | Inr dir \<Rightarrow>
        (case dir of
           Inl err \<Rightarrow> (tr, Inl (Some err))
         | Inr dirInfo \<Rightarrow>
          let aclResp = (if HNSEnabled opts then GetAccessControl W tr dirURL else Inr []);
              tr1 = (if HNSEnabled opts then tr @ [CallGetAccessControl dirURL] else tr)
          in if HNSEnabled opts \<and> acl_fetch_failed (err_of aclResp)
             then (tr1, Inl (err_of aclResp))
             else
               let acl = XMsACL aclResp;
                   meta = dir_Metadata opts dirInfo;
                   err = Upload W tr1 dirURL meta;
                   tr2 = tr1 @ [CallUpload dirURL meta]
               in if err \<noteq> None then (tr2, Inl err)
                  else if HNSEnabled opts then
                    (let err = SetAccessControl W tr2 dirURL acl;
                         tr3 = tr2 @ [CallSetAccessControl dirURL acl]
                     in if err \<noteq> None then (tr3, Inl err) else (tr3, Inr (u, dirPath)))
                  else (tr2, Inr (u, dirPath))))"

fun archive_parents ::
  "world \<Rightarrow> ArchiveOptions \<Rightarrow> string list \<Rightarrow> call list \<Rightarrow> URL \<Rightarrow> string
   \<Rightarrow> call list \<times> (error option + URL \<times> string)" where
  "archive_parents W opts [] tr u dirPath = (tr, Inr (u, dirPath))"
| "archive_parents W opts (currDir # parents) tr u dirPath =
     (case archive_parent W opts tr u dirPath currDir of
        (tr', Inl err) \<Rightarrow> (tr', Inl err)
      | (tr', Inr (u', dirPath')) \<Rightarrow> archive_parents W opts parents tr' u' dirPath')"

text \<open>
  "A step of the round fails", in the words of the specification: the directory cannot be
  opened, its status cannot be read, the ACL fetch returns an error, the placeholder
  upload returns an error, or the placeholder ACL write returns an error.
\<close>

definition round_fails ::
  "world \<Rightarrow> ArchiveOptions \<Rightarrow> call list \<Rightarrow> URL \<Rightarrow> string \<Rightarrow> string \<Rightarrow> bool" where
  "round_fails W opts tr u dirPath0 currDir =
     (let dirURL = u\<lparr>Path := path_Join [Path u, currDir]\<rparr>;
          dirPath = path_Join [dirPath0, currDir]
      in case os_Open W tr dirPath of
           Inl e \<Rightarrow> True
         | Inr dir \<Rightarrow>
        (case dir of
           Inl e \<Rightarrow> True
         | Inr dirInfo \<Rightarrow>
             (HNSEnabled opts \<and> err_of (GetAccessControl W tr dirURL) \<noteq> None)
             \<or> (let tr1 = (if HNSEnabled opts then tr @ [CallGetAccessControl dirURL] else tr);
                     meta = dir_Metadata opts dirInfo
                 in Upload W tr1 dirURL meta \<noteq> None
                    \<or> (HNSEnabled opts
                        \<and> SetAccessControl W (tr1 @ [CallUpload dirURL meta]) dirURL
                              (XMsACL (GetAccessControl W tr dirURL)) \<noteq> None))))"

text \<open>
  \<open>file, _ := os.Open(o.SourcePath); fileInfo, _ := file.Stat()\<close>: both errors are
  dropped, and \<open>fileInfo\<close> is nil (\<open>None\<close>) when either call failed.
\<close>

definition source_FileInfo :: "world \<Rightarrow> call list \<Rightarrow> string \<Rightarrow> FileInfo option" where
  "source_FileInfo W tr p =
     (case os_Open W tr p of
        Inl _ \<Rightarrow> None
      | Inr file \<Rightarrow> (case file of Inl _ \<Rightarrow> None | Inr fileInfo \<Rightarrow> Some fileInfo))"

text \<open>The second part of Archive: the upload of the file itself.\<close>

definition archive_file ::
  "world \<Rightarrow> ArchiveOptions \<Rightarrow> call list \<Rightarrow> URL \<Rightarrow> call list \<times> (64 word \<times> error option) outcome"
  where
  "archive_file W opts tr blobURL =
     (case source_FileInfo W tr (SourcePath opts) of
        None \<Rightarrow> (tr, Panic)
      | Some fileInfo \<Rightarrow>
          let total = Size fileInfo;
              meta = stat_Metadata Map.empty fileInfo
          in if HNSEnabled opts then
               (case url_Parse W (dfs_url opts) of
                  None \<Rightarrow> (tr, Panic)
                | Some dfsURL \<Rightarrow>
                    let aclResp = GetAccessControl W tr dfsURL;
                        tr1 = tr @ [CallGetAccessControl dfsURL]
                    in if err_of aclResp \<noteq> None then (tr1, Return (0, err_of aclResp))
                       else
                         let acl = XMsACL aclResp;
                             err = UploadFileToBlockBlob W tr1 blobURL (BlockSize opts)
                                     (Parallelism opts) meta;
                             tr2 = tr1 @ [CallUploadFileToBlockBlob blobURL (BlockSize opts)
                                            (Parallelism opts) meta]
                         in if err \<noteq> None then (tr2, Return (0, err))
                            else
                              (case url_Parse W (dfs_url opts) of
                                 None \<Rightarrow> (tr2, Panic)
                               | Some dfsURL' \<Rightarrow>
                                   let err = SetAccessControl W tr2 dfsURL' acl;
                                       tr3 = tr2 @ [CallSetAccessControl dfsURL' acl]
                                   in (tr3, Return (total, err))))
             else
               (let err = UploadFileToBlockBlob W tr blobURL (BlockSize opts)
                            (Parallelism opts) meta;
                    tr1 = tr @ [CallUploadFileToBlockBlob blobURL (BlockSize opts)
                                  (Parallelism opts) meta]
                in if err \<noteq> None then (tr1, Return (0, err))
                   else (tr1, Return (total, err))))"

text \<open>The first part of Archive: the loop over the parent directories of the blob name.\<close>

definition archive_dirs ::
  "world \<Rightarrow> ArchiveOptions \<Rightarrow> URL \<Rightarrow> call list \<times> (error option + URL \<times> string)" where
  "archive_dirs W opts cURL =
     (let parents = strings_Split (BlobName opts) CHR ''/'';
          parents = butlast parents;
          u = cURL;
          dirPath = MountRoot opts
      in archive_parents W opts parents [] u dirPath)"

definition Archive ::
  "world \<Rightarrow> ArchiveOptions \<Rightarrow> call list \<times> (64 word \<times> error option) outcome" where
  "Archive W opts =
     (case url_Parse W (container_url opts) of
        None \<Rightarrow> ([], Panic)
      | Some cURL \<Rightarrow>
          let containerURL = cURL;
              blobURL = appendToURLPath containerURL (BlobName opts)
          in case archive_dirs W opts cURL of
               (tr, Inl err) \<Rightarrow> (tr, Return (0, err))
             | (tr, Inr _) \<Rightarrow> archive_file W opts tr blobURL)"

section \<open>The no-op mover\<close>

record Mover =
  fsName :: string
  archiveID :: "32 word"

text \<open>
  The two methods take the mover by pointer; each is modelled as returning its result
  together with the mover as it is after the call.
\<close>

definition FsName :: "Mover \<Rightarrow> string \<times> Mover" where
  "FsName m = (fsName m, m)"

definition ArchiveID :: "Mover \<Rightarrow> 32 word \<times> Mover" where
  "ArchiveID m = (archiveID m, m)"

text \<open>\<open>Mover{fsName: "noop", archiveID: uint32(archive)}\<close> with the 64-bit flag value.\<close>

definition noop_Mover :: "64 word \<Rightarrow> Mover" where
  "noop_Mover archive = \<lparr>fsName = ''noop'', archiveID = ucast archive\<rparr>"

datatype Mover_method = CallFsName | CallArchiveID

datatype Mover_result = ResFsName string | ResArchiveID "32 word"

fun Mover_invoke :: "Mover_method \<Rightarrow> Mover \<Rightarrow> Mover_result \<times> Mover" where
  "Mover_invoke CallFsName m = (let (r, m') = FsName m in (ResFsName r, m'))"
| "Mover_invoke CallArchiveID m = (let (r, m') = ArchiveID m in (ResArchiveID r, m'))"

fun Mover_run :: "Mover_method list \<Rightarrow> Mover \<Rightarrow> Mover_result list \<times> Mover" where
  "Mover_run [] m = ([], m)"
| "Mover_run (c # cs) m =
     (let (r, m') = Mover_invoke c m; (rs, m'') = Mover_run cs m' in (r # rs, m''))"

section \<open>Reading the calls\<close>

fun is_file_upload :: "call \<Rightarrow> bool" where
  "is_file_upload (CallUploadFileToBlockBlob u bs par meta) = True"
| "is_file_upload _ = False"

text \<open>The store paths of the placeholder uploads, in the order of the calls.\<close>

fun upload_paths :: "call list \<Rightarrow> string list" where
  "upload_paths [] = []"
| "upload_paths (CallUpload u meta # cs) = Path u # upload_paths cs"
| "upload_paths (_ # cs) = upload_paths cs"

text \<open>The paths the loop gives to \<open>u.Path\<close>, one for each parent directory.\<close>

fun join_chain :: "string \<Rightarrow> string list \<Rightarrow> string list" where
  "join_chain p [] = []"
| "join_chain p (currDir # parents) =
     path_Join [p, currDir] # join_chain (path_Join [p, currDir]) parents"

section \<open>Example inputs\<close>

text \<open>
  The value of \<open>url.Parse\<close> on a URL \<open>scheme://host/path?query\<close> whose parts hold no
  reserved or escaped character.
\<close>

definition simple_url_Parse :: "string \<Rightarrow> URL option" where
  "simple_url_Parse s =
     (let scheme = takeWhile (\<lambda>c. c \<noteq> CHR '':'') s;
          rest = drop (length scheme + 3) s;
          host = takeWhile (\<lambda>c. c \<noteq> CHR ''/'') rest;
          rest' = dropWhile (\<lambda>c. c \<noteq> CHR ''/'') rest;
          path = takeWhile (\<lambda>c. c \<noteq> CHR ''?'') rest';
          query = drop 1 (dropWhile (\<lambda>c. c \<noteq> CHR ''?'') rest')
      in Some \<lparr>Scheme = scheme, Host = host, Path = path, RawQuery = query\<rparr>)"

definition example_info :: FileInfo where
  "example_info =
     \<lparr>Size = 5, Mode = 420,
      ModTime = \<lparr>Year = 2021, Month = 3, Day = 4, Hour = 5, Minute = 6, Second = 7,
                 ZoneOffset = - 25200\<rparr>,
      Uid = 1000, Gid = 100\<rparr>"

text \<open>A world in which every file can be read and every call to the store succeeds.\<close>

definition healthy_world :: world where
  "healthy_world =
     \<lparr>url_Parse = simple_url_Parse,
      os_Open = (\<lambda>tr p. Inr (Inr example_info)),
      GetAccessControl = (\<lambda>tr u. Inr ''user::rwx''),
      Upload = (\<lambda>tr u meta. None),
      SetAccessControl = (\<lambda>tr u acl. None),
      UploadFileToBlockBlob = (\<lambda>tr u bs par meta. None),
      Delete = (\<lambda>tr u opt. None)\<rparr>"

text \<open>The store answers every ACL fetch with "blob not found".\<close>

definition notfound_world :: world where
  "notfound_world =
     healthy_world\<lparr>GetAccessControl := (\<lambda>tr u. Inl (StorageError ''BlobNotFound''))\<rparr>"

text \<open>Setting the ACL fails on the namespace-aware host and succeeds elsewhere.\<close>

definition aclfail_world :: world where
  "aclfail_world =
     healthy_world\<lparr>SetAccessControl :=
       (\<lambda>tr u acl. if Host u = ''acct.dfs.core.windows.net''
                    then Some (OtherError ''set acl'') else None)\<rparr>"

text \<open>The upload of the second placeholder fails.\<close>

definition uploadfail_world :: world where
  "uploadfail_world =
     healthy_world\<lparr>Upload :=
       (\<lambda>tr u meta. if Path u = ''/c1/a/b'' then Some (OtherError ''upload'') else None)\<rparr>"

text \<open>The directories can be read, the source file cannot be opened.\<close>

definition unreadable_world :: world where
  "unreadable_world =
     healthy_world\<lparr>os_Open :=
       (\<lambda>tr p. if p = ''/mnt/fs/a/b/file.txt'' then Inl (OtherError ''ENOENT'')
                else Inr (Inr example_info))\<rparr>"

definition flat_opts :: ArchiveOptions where
  "flat_opts =
     \<lparr>AccountName = ''acct'', ContainerName = ''c1'', ResourceSAS = ''?sv=1'',
      MountRoot = ''/mnt/fs'', BlobName = ''a/b/file.txt'',
      SourcePath = ''/mnt/fs/a/b/file.txt'', Parallelism = 4, BlockSize = 1048576,
      ExportPrefix = ''export1'', HNSEnabled = False\<rparr>"

definition hns_opts :: ArchiveOptions where
  "hns_opts = flat_opts\<lparr>HNSEnabled := True\<rparr>"

definition remove_opts :: RemoveOptions where
  "remove_opts =
     \<lparr>RemoveOptions.AccountName = ''acct'', ContainerName = ''c1'', ResourceSAS = ''?sv=1'',
      BlobName = ''a/b/file.txt'', ExportPrefix = ''export1''\<rparr>"

definition blob_host_URL :: "string \<Rightarrow> URL" where
  "blob_host_URL p =
     \<lparr>Scheme = ''https'', Host = ''acct.blob.core.windows.net'', Path = p, RawQuery = ''sv=1''\<rparr>"

definition dfs_host_URL :: "string \<Rightarrow> URL" where
  "dfs_host_URL p =
     \<lparr>Scheme = ''https'', Host = ''acct.dfs.core.windows.net'', Path = p, RawQuery = ''sv=1''\<rparr>"

definition double_slash_opts :: ArchiveOptions where
  "double_slash_opts = flat_opts\<lparr>BlobName := ''a//f'', SourcePath := ''/mnt/fs/a/f''\<rparr>"

definition top_level_opts :: ArchiveOptions where
  "top_level_opts = flat_opts\<lparr>BlobName := ''file.txt'', SourcePath := ''/mnt/fs/file.txt''\<rparr>"


text \<open>What each accessor of a mover built from \<open>fs\<close> and \<open>aid\<close> is to return.\<close>

fun Mover_expected :: "string \<Rightarrow> 32 word \<Rightarrow> Mover_method \<Rightarrow> Mover_result" where
  "Mover_expected fs aid CallFsName = ResFsName fs"
| "Mover_expected fs aid CallArchiveID = ResArchiveID aid"

section \<open>Properties of the path functions\<close>

lemma strings_Split_nonempty: "strings_Split s sep \<noteq> []"
  by (induction s) (auto simp: Let_def)

lemma strings_Split_append:
  "strings_Split (a @ sep # b) sep = strings_Split a sep @ strings_Split b sep"
proof (induction a)
  case Nil
  show ?case by simp
next
  case (Cons c a)
  have ne: "strings_Split a sep \<noteq> []" by (rule strings_Split_nonempty)
  show ?case using Cons ne by (simp add: Let_def)
qed

lemma strings_Split_no_sep: "sep \<notin> set s \<Longrightarrow> strings_Split s sep = [s]"
  by (induction s) (auto simp: Let_def)

lemma strings_Split_elems: "e \<in> set (strings_Split s sep) \<Longrightarrow> sep \<notin> set e"
proof (induction s arbitrary: e)
  case Nil
  then show ?case by simp
next
  case (Cons c s)
  have ne: "strings_Split s sep \<noteq> []" by (rule strings_Split_nonempty)
  show ?case
  proof (cases "c = sep")
    case True
    with Cons show ?thesis by (auto simp: Let_def)
  next
    case False
    from Cons.prems False
    have "e = c # hd (strings_Split s sep) \<or> e \<in> set (tl (strings_Split s sep))"
      by (simp add: Let_def)
    then show ?thesis
    proof
      assume e: "e = c # hd (strings_Split s sep)"
      have "hd (strings_Split s sep) \<in> set (strings_Split s sep)" using ne by simp
      then have "sep \<notin> set (hd (strings_Split s sep))" by (rule Cons.IH)
      with e False show ?thesis by auto
    next
      assume "e \<in> set (tl (strings_Split s sep))"
      then have "e \<in> set (strings_Split s sep)" using ne by (metis list.set_sel(2))
      then show ?thesis by (rule Cons.IH)
    qed
  qed
qed

lemma cleaned_tl: "cleaned r out \<Longrightarrow> cleaned r (tl out)"
  by (cases out) auto

lemma clean_elem_cleaned:
  "cleaned r out \<Longrightarrow> CHR ''/'' \<notin> set e \<Longrightarrow> cleaned r (clean_elem r out e)"
  unfolding clean_elem_def
  by (cases out) (auto simp: ok_elem_def)

lemma foldl_clean_cleaned:
  "cleaned r out \<Longrightarrow> \<forall>e\<in>set es. CHR ''/'' \<notin> set e \<Longrightarrow> cleaned r (foldl (clean_elem r) out es)"
  by (induction es arbitrary: out) (auto simp: clean_elem_cleaned)

lemma clean_elem_push:
  assumes "cleaned r (t # ts)"
  shows "clean_elem r ts t = t # ts"
proof (cases "t = ''..''")
  case True
  with assms have nr: "\<not> r" and all: "\<forall>s\<in>set ts. s = ''..''" by simp_all
  have "ts = [] \<or> hd ts = ''..''"
  proof (cases ts)
    case Nil
    then show ?thesis by simp
  next
    case (Cons a list)
    with all show ?thesis by simp
  qed
  then show ?thesis unfolding clean_elem_def using True nr by auto
next
  case False
  from assms have "ok_elem t" by simp
  then have "t \<noteq> []" "t \<noteq> ''.''" by (simp_all add: ok_elem_def)
  with False show ?thesis unfolding clean_elem_def by simp
qed

lemma foldl_clean_fixed:
  "cleaned r out \<Longrightarrow> foldl (clean_elem r) [] (rev out) = out"
proof (induction out)
  case Nil
  show ?case by simp
next
  case (Cons t ts)
  from Cons.prems have "cleaned r ts" by simp
  then have ih: "foldl (clean_elem r) [] (rev ts) = ts" by (rule Cons.IH)
  from Cons.prems have "clean_elem r ts t = t # ts" by (rule clean_elem_push)
  with ih show ?case by simp
qed

lemma strings_Join_split:
  "es \<noteq> [] \<Longrightarrow> \<forall>e\<in>set es. CHR ''/'' \<notin> set e \<Longrightarrow>
   strings_Split (strings_Join es ''/'') CHR ''/'' = es"
proof (induction es "''/''" rule: strings_Join.induct)
  case 1
  then show ?case by simp
next
  case (2 e)
  then show ?case by (simp add: strings_Split_no_sep)
next
  case (3 e e' es)
  have "strings_Split (e @ CHR ''/'' # strings_Join (e' # es) ''/'') CHR ''/''
        = strings_Split e CHR ''/'' @ strings_Split (strings_Join (e' # es) ''/'') CHR ''/''"
    by (rule strings_Split_append)
  with 3 show ?case by (simp add: strings_Split_no_sep)
qed

lemma cleaned_ok: "cleaned r out \<Longrightarrow> e \<in> set out \<Longrightarrow> ok_elem e"
  by (induction out) auto

lemma strings_Join_Cons: "strings_Join (e # es) sep = e @ (if es = [] then [] else sep @ strings_Join es sep)"
  by (cases es) auto

lemma strings_Join_snoc:
  "es \<noteq> [] \<Longrightarrow> strings_Join (es @ [e]) sep = strings_Join es sep @ sep @ e"
  by (induction es sep rule: strings_Join.induct) auto

lemma render_snoc: "es \<noteq> [] \<Longrightarrow> render r (es @ [e]) = render r es @ ''/'' @ e"
  by (simp add: render_def strings_Join_snoc)

lemma render_hd:
  assumes "cleaned r out" and "out \<noteq> [] \<or> r"
  shows "render r (rev out) \<noteq> [] \<and> (hd (render r (rev out)) = CHR ''/'') = r"
proof (cases r)
  case True
  then show ?thesis by (simp add: render_def)
next
  case False
  with assms have ne: "out \<noteq> []" by simp
  then obtain x xs where xs: "rev out = x # xs" by (cases "rev out") auto
  then have "x \<in> set out" by (metis list.set_intros(1) set_rev)
  with assms(1) have "ok_elem x" by (rule cleaned_ok)
  then have "x \<noteq> []" "hd x \<noteq> CHR ''/''"
    by (auto simp: ok_elem_def) (metis hd_in_set)
  with False xs show ?thesis
    by (simp add: render_def strings_Join_Cons)
qed

lemma split_render:
  assumes "cleaned r out" and "out \<noteq> [] \<or> r"
  shows "foldl (clean_elem r) [] (strings_Split (render r (rev out)) CHR ''/'') = out"
proof -
  have nosep: "\<forall>e\<in>set (rev out). CHR ''/'' \<notin> set e"
    using cleaned_ok [OF assms(1)] by (auto simp: ok_elem_def)
  have fixed: "foldl (clean_elem r) [] (rev out) = out"
    using assms(1) by (rule foldl_clean_fixed)
  show ?thesis
  proof (cases "out = []")
    case True
    with assms(2) show ?thesis by (simp add: render_def clean_elem_def)
  next
    case False
    then have sp: "strings_Split (strings_Join (rev out) ''/'') CHR ''/'' = rev out"
      using nosep by (simp add: strings_Join_split)
    show ?thesis
    proof (cases r)
      case True
      have "strings_Split (render r (rev out)) CHR ''/'' = [] # rev out"
        using True sp by (simp add: render_def)
      then show ?thesis using fixed by (simp add: clean_elem_def)
    next
      case False
      then show ?thesis using sp fixed by (simp add: render_def)
    qed
  qed
qed

lemma path_Clean_render:
  assumes "cleaned r out" and "out \<noteq> [] \<or> r"
  shows "path_Clean (render r (rev out)) = render r (rev out)"
  using render_hd [OF assms] split_render [OF assms]
  by (simp add: path_Clean_def Let_def)

lemma path_Clean_shape:
  "\<exists>r out. cleaned r out \<and> path_Clean p = (if out = [] \<and> \<not> r then ''.'' else render r (rev out))
     \<and> (p \<noteq> [] \<longrightarrow> r = (hd p = CHR ''/'') \<and> out = foldl (clean_elem r) [] (strings_Split p CHR ''/''))"
proof (cases "p = []")
  case True
  have "cleaned False []" by simp
  then show ?thesis using True by (intro exI [of _ False] exI [of _ "[]"]) (simp add: path_Clean_def)
next
  case False
  define r where "r = (hd p = CHR ''/'')"
  define out where "out = foldl (clean_elem r) [] (strings_Split p CHR ''/'')"
  have c: "cleaned r out" unfolding out_def
    by (rule foldl_clean_cleaned) (auto dest: strings_Split_elems)
  have eq: "path_Clean p = (if render r (rev out) = [] then ''.'' else render r (rev out))"
    using False by (simp add: path_Clean_def Let_def r_def out_def)
  have "path_Clean p = (if out = [] \<and> \<not> r then ''.'' else render r (rev out))"
  proof (cases "out = [] \<and> \<not> r")
    case True
    then have "render r (rev out) = []" by (simp add: render_def)
    with eq True show ?thesis by simp
  next
    case no: False
    then have "render r (rev out) \<noteq> []" using render_hd [OF c] by blast
    with eq no show ?thesis by auto
  qed
  with c show ?thesis using r_def out_def by blast
qed

lemma path_Clean_idem: "path_Clean (path_Clean p) = path_Clean p"
proof -
  obtain r out where c: "cleaned r out"
    and p: "path_Clean p = (if out = [] \<and> \<not> r then ''.'' else render r (rev out))"
    using path_Clean_shape by blast
  show ?thesis
  proof (cases "out = [] \<and> \<not> r")
    case True
    have "path_Clean ''.'' = ''.''" by (simp add: path_Clean_def clean_elem_def render_def)
    with p True show ?thesis by simp
  next
    case False
    then have "out \<noteq> [] \<or> r" by blast
    from path_Clean_render [OF c this] p False show ?thesis by simp
  qed
qed

lemma path_Clean_nonempty: "path_Clean p \<noteq> []"
proof -
  obtain r out where c: "cleaned r out"
    and p: "path_Clean p = (if out = [] \<and> \<not> r then ''.'' else render r (rev out))"
    using path_Clean_shape by blast
  show ?thesis using p render_hd [OF c] by (cases "out = [] \<and> \<not> r") auto
qed

lemma path_Join_Clean: "path_Join es = [] \<or> (\<exists>s. path_Join es = path_Clean s)"
  by (induction es) auto

lemma path_Join_idem: "path_Join [path_Join es] = path_Join es"
proof -
  from path_Join_Clean [of es] show ?thesis
  proof
    assume "path_Join es = []"
    then show ?thesis by simp
  next
    assume "\<exists>s. path_Join es = path_Clean s"
    then obtain s where s: "path_Join es = path_Clean s" by blast
    have "path_Join [path_Clean s] = path_Clean s"
      by (simp add: path_Clean_nonempty path_Clean_idem)
    with s show ?thesis by simp
  qed
qed

subsection \<open>Chains of joins\<close>

lemma plain_elem_clean: "plain_elem a \<Longrightarrow> clean_elem r out a = a # out"
  by (simp add: plain_elem_def clean_elem_def)

lemma plain_elem_cleaned: "plain_elem a \<Longrightarrow> cleaned r out \<Longrightarrow> cleaned r (a # out)"
  by (simp add: plain_elem_def ok_elem_def)

lemma path_Clean_snoc:
  assumes s: "s \<noteq> []" and a: "plain_elem a"
  defines "r \<equiv> (hd s = CHR ''/'')"
  defines "out \<equiv> foldl (clean_elem r) [] (strings_Split s CHR ''/'')"
  shows "path_Clean (s @ ''/'' @ a) = render r (rev (a # out))" and "cleaned r (a # out)"
proof -
  have c0: "cleaned r out" unfolding out_def
    by (rule foldl_clean_cleaned) (auto dest: strings_Split_elems)
  show c: "cleaned r (a # out)" using a c0 by (rule plain_elem_cleaned)
  have "CHR ''/'' \<notin> set a" using a by (simp add: plain_elem_def)
  then have sp: "strings_Split (s @ CHR ''/'' # a) CHR ''/'' = strings_Split s CHR ''/'' @ [a]"
    by (simp add: strings_Split_append strings_Split_no_sep)
  have fo: "foldl (clean_elem r) [] (strings_Split (s @ CHR ''/'' # a) CHR ''/'') = a # out"
    unfolding sp out_def using a by (simp add: plain_elem_clean)
  have ne: "render r (rev (a # out)) \<noteq> []" using render_hd [OF c] by blast
  have hd: "hd (s @ CHR ''/'' # a) = hd s" using s by simp
  show "path_Clean (s @ ''/'' @ a) = render r (rev (a # out))"
    using ne fo hd s by (simp add: path_Clean_def Let_def r_def [symmetric])
qed

lemma path_Join_plain_shape:
  assumes a: "plain_elem a"
  shows "\<exists>r out. cleaned r out \<and> out \<noteq> [] \<and> path_Join [p, a] = render r (rev out)"
proof (cases "p = []")
  case True
  have ne: "a \<noteq> []" and ns: "CHR ''/'' \<notin> set a" using a by (simp_all add: plain_elem_def)
  then have h: "hd a \<noteq> CHR ''/''" by (metis hd_in_set)
  have "path_Clean a = a"
    using ne ns h a by (simp add: path_Clean_def Let_def strings_Split_no_sep plain_elem_clean render_def)
  then have "path_Join [p, a] = render False (rev [a])" using True ne by (simp add: render_def)
  moreover have "cleaned False [a]" using a by (simp add: plain_elem_def ok_elem_def)
  ultimately show ?thesis by blast
next
  case False
  from path_Clean_snoc [OF False a] False show ?thesis
    by (intro exI [of _ "hd p = CHR ''/''"]
              exI [of _ "a # foldl (clean_elem (hd p = CHR ''/'')) [] (strings_Split p CHR ''/'')"])
       simp
qed

lemma path_Join_render_plain:
  assumes c: "cleaned r out" and ne: "out \<noteq> []" and a: "plain_elem a"
  shows "path_Join [render r (rev out), a] = render r (rev out) @ ''/'' @ a"
    and "path_Join [render r (rev out), a] = render r (rev (a # out))"
    and "cleaned r (a # out)"
proof -
  let ?s = "render r (rev out)"
  have h: "?s \<noteq> []" "(hd ?s = CHR ''/'') = r" using render_hd [OF c] ne by blast+
  have fo: "foldl (clean_elem r) [] (strings_Split ?s CHR ''/'') = out"
    using split_render [OF c] ne by blast
  from path_Clean_snoc(1) [OF h(1) a] h(2) fo
  have "path_Clean (?s @ ''/'' @ a) = render r (rev (a # out))" by simp
  then show j: "path_Join [?s, a] = render r (rev (a # out))" using h(1) by simp
  have "render r (rev (a # out)) = ?s @ ''/'' @ a" using ne by (simp add: render_snoc)
  with j show "path_Join [?s, a] = ?s @ ''/'' @ a" by simp
  show "cleaned r (a # out)" using a c by (rule plain_elem_cleaned)
qed

lemma join_chain_render:
  assumes "cleaned r out" and "out \<noteq> []" and "\<forall>a\<in>set ps. plain_elem a"
  shows "successively strict_prefix (render r (rev out) # join_chain (render r (rev out)) ps)"
  using assms
proof (induction ps arbitrary: out)
  case Nil
  show ?case by simp
next
  case (Cons a ps)
  from Cons.prems have a: "plain_elem a" and rest: "\<forall>a\<in>set ps. plain_elem a" by simp_all
  note j = path_Join_render_plain [OF Cons.prems(1) Cons.prems(2) a]
  have sp: "strict_prefix (render r (rev out)) (path_Join [render r (rev out), a])"
    unfolding j(1) by (rule strict_prefixI') simp
  have "successively strict_prefix
          (render r (rev (a # out)) # join_chain (render r (rev (a # out))) ps)"
    using j(3) _ rest by (rule Cons.IH) simp
  then have "successively strict_prefix
          (path_Join [render r (rev out), a] # join_chain (path_Join [render r (rev out), a]) ps)"
    unfolding j(2) .
  with sp show ?case by (simp del: path_Join.simps)
qed

lemma join_chain_plain:
  assumes "\<forall>a\<in>set ps. plain_elem a"
  shows "successively strict_prefix (join_chain p ps)"
proof (cases ps)
  case Nil
  then show ?thesis by simp
next
  case (Cons a ps')
  with assms have a: "plain_elem a" and rest: "\<forall>a\<in>set ps'. plain_elem a" by simp_all
  from path_Join_plain_shape [OF a, of p] obtain r out where
    c: "cleaned r out" "out \<noteq> []" and j: "path_Join [p, a] = render r (rev out)" by blast
  from join_chain_render [OF c rest] show ?thesis
    unfolding Cons by (simp add: j del: path_Join.simps)
qed

lemma length_join_chain: "length (join_chain p ps) = length ps"
  by (induction ps arbitrary: p) (simp_all del: path_Join.simps)

lemma length_strings_Split: "length (strings_Split s sep) = Suc (count_list s sep)"
  by (induction s) (auto simp: Let_def strings_Split_nonempty)

section \<open>Properties of the loop over the parent directories\<close>

lemma acl_fetch_failed_iff: "acl_fetch_failed err = (err \<noteq> None)"
  by (cases err) (simp_all add: acl_fetch_failed_def)

lemma upload_paths_append: "upload_paths (xs @ ys) = upload_paths xs @ upload_paths ys"
  by (induction xs rule: upload_paths.induct) simp_all

text \<open>One round: the calls it adds and the error it returns with.\<close>

lemma archive_parent_ext:
  assumes "archive_parent W opts tr u d c = (tr', r)"
  shows "\<exists>ext. tr' = tr @ ext \<and> (\<forall>x\<in>set ext. \<not> is_file_upload x)
           \<and> (\<forall>x m. CallUpload x m \<in> set ext \<longrightarrow> (\<exists>info. m = dir_Metadata opts info))"
  using assms unfolding archive_parent_def Let_def
  by (auto split: sum.splits if_splits simp del: path_Join.simps not_None_eq)

lemma archive_parent_Inl:
  assumes "archive_parent W opts tr u d c = (tr', Inl err)"
  shows "err \<noteq> None"
  using assms unfolding archive_parent_def Let_def acl_fetch_failed_iff
  by (auto split: sum.splits if_splits simp del: path_Join.simps not_None_eq)

lemma archive_parent_Inr:
  assumes "archive_parent W opts tr u d c = (tr', Inr (u', d'))"
  shows "u' = u\<lparr>Path := path_Join [Path u, c]\<rparr> \<and> d' = path_Join [d, c]
         \<and> upload_paths tr' = upload_paths tr @ [path_Join [Path u, c]]"
  using assms unfolding archive_parent_def Let_def acl_fetch_failed_iff
  by (auto split: sum.splits if_splits simp: upload_paths_append simp del: path_Join.simps not_None_eq)

lemma archive_parents_ext:
  assumes "archive_parents W opts ps tr u d = (tr', r)"
  shows "\<exists>ext. tr' = tr @ ext \<and> (\<forall>x\<in>set ext. \<not> is_file_upload x)
           \<and> (\<forall>x m. CallUpload x m \<in> set ext \<longrightarrow> (\<exists>info. m = dir_Metadata opts info))"
  using assms
proof (induction ps arbitrary: tr u d)
  case Nil
  then show ?case by simp
next
  case (Cons c ps)
  obtain tr1 r1 where step: "archive_parent W opts tr u d c = (tr1, r1)"
    by (cases "archive_parent W opts tr u d c")
  from archive_parent_ext [OF step] obtain ext1 where
    e1: "tr1 = tr @ ext1" "\<forall>x\<in>set ext1. \<not> is_file_upload x"
      "\<forall>x m. CallUpload x m \<in> set ext1 \<longrightarrow> (\<exists>info. m = dir_Metadata opts info)"
    by blast
  show ?case
  proof (cases r1)
    case (Inl err)
    with Cons.prems step have "tr' = tr1" by simp
    with e1 show ?thesis by blast
  next
    case (Inr st)
    obtain u1 d1 where st: "st = (u1, d1)" by (cases st)
    with Cons.prems step Inr have "archive_parents W opts ps tr1 u1 d1 = (tr', r)" by simp
    from Cons.IH [OF this] obtain ext2 where
      e2: "tr' = tr1 @ ext2" "\<forall>x\<in>set ext2. \<not> is_file_upload x"
        "\<forall>x m. CallUpload x m \<in> set ext2 \<longrightarrow> (\<exists>info. m = dir_Metadata opts info)"
      by blast
    have "tr' = tr @ (ext1 @ ext2)" using e1(1) e2(1) by simp
    moreover have "\<forall>x\<in>set (ext1 @ ext2). \<not> is_file_upload x" using e1(2) e2(2) by auto
    moreover have "\<forall>x m. CallUpload x m \<in> set (ext1 @ ext2) \<longrightarrow> (\<exists>info. m = dir_Metadata opts info)"
      using e1(3) e2(3) by auto
    ultimately show ?thesis by blast
  qed
qed

lemma archive_parents_Inl:
  assumes "archive_parents W opts ps tr u d = (tr', Inl err)"
  shows "err \<noteq> None"
  using assms
proof (induction ps arbitrary: tr u d)
  case Nil
  then show ?case by simp
next
  case (Cons c ps)
  obtain tr1 r1 where step: "archive_parent W opts tr u d c = (tr1, r1)"
    by (cases "archive_parent W opts tr u d c")
  show ?case
  proof (cases r1)
    case (Inl e)
    with Cons.prems step have "e = err" by simp
    with Inl step archive_parent_Inl show ?thesis by blast
  next
    case (Inr st)
    obtain u1 d1 where st: "st = (u1, d1)" by (cases st)
    with Cons.prems step Inr have "archive_parents W opts ps tr1 u1 d1 = (tr', Inl err)" by simp
    then show ?thesis by (rule Cons.IH)
  qed
qed

lemma archive_parents_paths:
  assumes "archive_parents W opts ps tr u d = (tr', Inr st)"
  shows "upload_paths tr' = upload_paths tr @ join_chain (Path u) ps"
  using assms
proof (induction ps arbitrary: tr u d)
  case Nil
  then show ?case by simp
next
  case (Cons c ps)
  obtain tr1 r1 where step: "archive_parent W opts tr u d c = (tr1, r1)"
    by (cases "archive_parent W opts tr u d c")
  show ?case
  proof (cases r1)
    case (Inl e)
    with Cons.prems step show ?thesis by simp
  next
    case (Inr st1)
    obtain u1 d1 where st: "st1 = (u1, d1)" by (cases st1)
    from step Inr st have s1: "archive_parent W opts tr u d c = (tr1, Inr (u1, d1))" by simp
    from archive_parent_Inr [OF s1]
    have u1: "Path u1 = path_Join [Path u, c]"
      and p1: "upload_paths tr1 = upload_paths tr @ [path_Join [Path u, c]]" by simp_all
    from Cons.prems s1 have "archive_parents W opts ps tr1 u1 d1 = (tr', Inr st)" by simp
    from Cons.IH [OF this] u1 p1 show ?thesis by (simp del: path_Join.simps)
  qed
qed

text \<open>Each step of a round that fails ends the round with its error.\<close>

lemma archive_parent_open_error:
  assumes "os_Open W tr (path_Join [d, c]) = Inl e"
  shows "archive_parent W opts tr u d c = (tr, Inl (Some e))"
  using assms by (simp add: archive_parent_def Let_def del: path_Join.simps)

lemma archive_parent_stat_error:
  assumes "os_Open W tr (path_Join [d, c]) = Inr (Inl e)"
  shows "archive_parent W opts tr u d c = (tr, Inl (Some e))"
  using assms by (simp add: archive_parent_def Let_def del: path_Join.simps)

lemma archive_parent_upload_error:
  assumes "os_Open W tr (path_Join [d, c]) = Inr (Inr dirInfo)"
    and "HNSEnabled opts \<longrightarrow> GetAccessControl W tr (u\<lparr>Path := path_Join [Path u, c]\<rparr>) = Inr acl"
    and "tr1 = (if HNSEnabled opts
                then tr @ [CallGetAccessControl (u\<lparr>Path := path_Join [Path u, c]\<rparr>)] else tr)"
    and "Upload W tr1 (u\<lparr>Path := path_Join [Path u, c]\<rparr>) (dir_Metadata opts dirInfo) = Some e"
  shows "archive_parent W opts tr u d c =
           (tr1 @ [CallUpload (u\<lparr>Path := path_Join [Path u, c]\<rparr>) (dir_Metadata opts dirInfo)],
            Inl (Some e))"
  using assms
  by (simp add: archive_parent_def Let_def acl_fetch_failed_iff del: path_Join.simps)

lemma archive_parent_set_acl_error:
  assumes "HNSEnabled opts"
    and "os_Open W tr (path_Join [d, c]) = Inr (Inr dirInfo)"
    and "GetAccessControl W tr (u\<lparr>Path := path_Join [Path u, c]\<rparr>) = Inr acl"
    and "tr2 = tr @ [CallGetAccessControl (u\<lparr>Path := path_Join [Path u, c]\<rparr>),
                     CallUpload (u\<lparr>Path := path_Join [Path u, c]\<rparr>) (dir_Metadata opts dirInfo)]"
    and "Upload W (tr @ [CallGetAccessControl (u\<lparr>Path := path_Join [Path u, c]\<rparr>)])
           (u\<lparr>Path := path_Join [Path u, c]\<rparr>) (dir_Metadata opts dirInfo) = None"
    and "SetAccessControl W tr2 (u\<lparr>Path := path_Join [Path u, c]\<rparr>) acl = Some e"
  shows "archive_parent W opts tr u d c =
           (tr2 @ [CallSetAccessControl (u\<lparr>Path := path_Join [Path u, c]\<rparr>) acl], Inl (Some e))"
  using assms
  by (simp add: archive_parent_def Let_def acl_fetch_failed_iff del: path_Join.simps)

text \<open>A round that fails ends the loop with the same error, whatever rounds would follow.\<close>

lemma archive_parents_append:
  "archive_parents W opts (ps @ qs) tr u d =
     (case archive_parents W opts ps tr u d of
        (tr', Inl err) \<Rightarrow> (tr', Inl err)
      | (tr', Inr (u', d')) \<Rightarrow> archive_parents W opts qs tr' u' d')"
proof (induction ps arbitrary: tr u d)
  case Nil
  show ?case by simp
next
  case (Cons c ps)
  obtain tr1 r1 where step: "archive_parent W opts tr u d c = (tr1, r1)"
    by (cases "archive_parent W opts tr u d c")
  show ?case
  proof (cases r1)
    case (Inl e)
    with step show ?thesis by simp
  next
    case (Inr st)
    obtain u1 d1 where "st = (u1, d1)" by (cases st)
    with step Inr Cons.IH show ?thesis by simp
  qed
qed

text \<open>A round returns with an error exactly when one of its steps fails.\<close>

lemma archive_parent_fails_iff:
  "(\<exists>tr' err. archive_parent W opts tr u d c = (tr', Inl err)) = round_fails W opts tr u d c"
  unfolding archive_parent_def round_fails_def Let_def acl_fetch_failed_iff
  by (auto split: sum.splits if_splits simp del: path_Join.simps not_None_eq)

section \<open>The examples, evaluated\<close>

lemma example_urls:
  "container_url flat_opts = ''https://acct.blob.core.windows.net/c1?sv=1''"
  "container_url hns_opts = ''https://acct.blob.core.windows.net/c1?sv=1''"
  "container_url double_slash_opts = ''https://acct.blob.core.windows.net/c1?sv=1''"
  "dfs_url hns_opts = ''https://acct.dfs.core.windows.net/c1/a/b/file.txt?sv=1''"
  by (simp_all add: container_url_def dfs_url_def flat_opts_def hns_opts_def double_slash_opts_def)

lemma example_parses:
  "simple_url_Parse ''https://acct.blob.core.windows.net/c1?sv=1'' = Some (blob_host_URL ''/c1'')"
  "simple_url_Parse ''https://acct.dfs.core.windows.net/c1/a/b/file.txt?sv=1''
     = Some (dfs_host_URL ''/c1/a/b/file.txt'')"
  "simple_url_Parse ''https://acct.blob.core.windows.net/c1/export1/a/b/file.txt?sv=1''
     = Some (blob_host_URL ''/c1/export1/a/b/file.txt'')"
  by (simp_all add: simple_url_Parse_def blob_host_URL_def dfs_host_URL_def)

lemma example_joins:
  "path_Join [''/c1'', ''a''] = ''/c1/a''"
  "path_Join [''/c1/a'', ''b''] = ''/c1/a/b''"
  "path_Join [''/c1/a'', []] = ''/c1/a''"
  "path_Join [''/mnt/fs'', ''a''] = ''/mnt/fs/a''"
  "path_Join [''/mnt/fs/a'', ''b''] = ''/mnt/fs/a/b''"
  "path_Join [''/mnt/fs/a'', []] = ''/mnt/fs/a''"
  "path_Join [''c1'', ''export1'', ''a/b/file.txt''] = ''c1/export1/a/b/file.txt''"
  by (simp_all add: path_Clean_def clean_elem_def render_def)

lemma example_splits:
  "butlast (strings_Split ''a/b/file.txt'' CHR ''/'') = [''a'', ''b'']"
  "butlast (strings_Split ''a//f'' CHR ''/'') = [''a'', []]"
  by simp_all

lemmas example_simps =
  Let_def archive_dirs_def archive_parent_def example_joins example_splits
  flat_opts_def hns_opts_def double_slash_opts_def blob_host_URL_def dfs_host_URL_def
  acl_fetch_failed_iff

lemma dirs_healthy_flat:
  "archive_dirs healthy_world flat_opts (blob_host_URL ''/c1'') =
     ([CallUpload (blob_host_URL ''/c1/a'') (dir_Metadata flat_opts example_info),
       CallUpload (blob_host_URL ''/c1/a/b'') (dir_Metadata flat_opts example_info)],
      Inr (blob_host_URL ''/c1/a/b'', ''/mnt/fs/a/b''))"
  by (simp add: example_simps healthy_world_def del: path_Join.simps)



lemma dirs_notfound_hns:
  "archive_dirs notfound_world hns_opts (blob_host_URL ''/c1'') =
     ([CallGetAccessControl (blob_host_URL ''/c1/a'')],
      Inl (Some (StorageError ''BlobNotFound'')))"
  by (simp add: example_simps healthy_world_def notfound_world_def del: path_Join.simps)

lemma dirs_uploadfail_flat:
  "archive_dirs uploadfail_world flat_opts (blob_host_URL ''/c1'') =
     ([CallUpload (blob_host_URL ''/c1/a'') (dir_Metadata flat_opts example_info),
       CallUpload (blob_host_URL ''/c1/a/b'') (dir_Metadata flat_opts example_info)],
      Inl (Some (OtherError ''upload'')))"
  by (simp add: example_simps healthy_world_def uploadfail_world_def del: path_Join.simps)

lemma dirs_unreadable_flat:
  "archive_dirs unreadable_world flat_opts (blob_host_URL ''/c1'') =
     ([CallUpload (blob_host_URL ''/c1/a'') (dir_Metadata flat_opts example_info),
       CallUpload (blob_host_URL ''/c1/a/b'') (dir_Metadata flat_opts example_info)],
      Inr (blob_host_URL ''/c1/a/b'', ''/mnt/fs/a/b''))"
  by (simp add: example_simps healthy_world_def unreadable_world_def del: path_Join.simps)

lemma dirs_healthy_double_slash:
  "archive_dirs healthy_world double_slash_opts (blob_host_URL ''/c1'') =
     ([CallUpload (blob_host_URL ''/c1/a'') (dir_Metadata double_slash_opts example_info),
       CallUpload (blob_host_URL ''/c1/a'') (dir_Metadata double_slash_opts example_info)],
      Inr (blob_host_URL ''/c1/a'', ''/mnt/fs/a''))"
  by (simp add: example_simps healthy_world_def del: path_Join.simps)

section \<open>The object key\<close>

text \<open>
  C8: the path join that gives the object key is idempotent. For every container, export
  prefix and object name, joining the already joined key again gives the same key.
\<close>

theorem path_Join_idempotent:
  "path_Join [path_Join [container, exportPrefix, blobName]]
   = path_Join [container, exportPrefix, blobName]"
  by (rule path_Join_idem)

section \<open>Archive, Remove and the mover\<close>

lemma archive_dirs_ext:
  assumes "archive_dirs W opts cURL = (tr, r)"
  shows "filter is_file_upload tr = []"
    and "CallUpload x m \<in> set tr \<Longrightarrow> \<exists>info. m = dir_Metadata opts info"
proof -
  from assms have "archive_parents W opts (butlast (strings_Split (BlobName opts) CHR ''/'')) []
      cURL (MountRoot opts) = (tr, r)"
    by (simp add: archive_dirs_def Let_def)
  from archive_parents_ext [OF this] obtain ext where
    e: "tr = [] @ ext" "\<forall>x\<in>set ext. \<not> is_file_upload x"
       "\<forall>x m. CallUpload x m \<in> set ext \<longrightarrow> (\<exists>info. m = dir_Metadata opts info)"
    by blast
  from e(1,2) show "filter is_file_upload tr = []" by (simp add: filter_empty_conv)
  from e(1,3) show "CallUpload x m \<in> set tr \<Longrightarrow> \<exists>info. m = dir_Metadata opts info" by simp
qed

lemma Archive_dirs_failed:
  assumes "url_Parse W (container_url opts) = Some cURL"
    and "archive_dirs W opts cURL = (tr, Inl err)"
  shows "Archive W opts = (tr, Return (0, err))"
  using assms by (simp add: Archive_def Let_def)

lemma Archive_dirs_done:
  assumes "url_Parse W (container_url opts) = Some cURL"
    and "archive_dirs W opts cURL = (tr, Inr st)"
  shows "Archive W opts = archive_file W opts tr (appendToURLPath cURL (BlobName opts))"
  using assms by (simp add: Archive_def Let_def)

text \<open>
  C5: if a step of the directory loop fails in some round (opening or reading the status
  of a parent directory, the ACL fetch, the placeholder upload or the placeholder ACL
  write), after the rounds before it have succeeded, then Archive returns \<open>(0, err)\<close>
  with the error of that step right after the calls of that round, and none of the calls
  sent to the store is an upload of the file.
\<close>

theorem Archive_fails_fast:
  assumes "url_Parse W (container_url opts) = Some cURL"
    and "butlast (strings_Split (BlobName opts) CHR ''/'') = ps @ c # qs"
    and "archive_parents W opts ps [] cURL (MountRoot opts) = (tr0, Inr (u, d))"
    and "round_fails W opts tr0 u d c"
  shows "\<exists>err. archive_parent W opts tr0 u d c = (fst (archive_parent W opts tr0 u d c), Inl (Some err))
           \<and> Archive W opts = (fst (archive_parent W opts tr0 u d c), Return (0, Some err))
           \<and> filter is_file_upload (fst (archive_parent W opts tr0 u d c)) = []"
proof -
  from assms(4) obtain tr e where step: "archive_parent W opts tr0 u d c = (tr, Inl e)"
    unfolding archive_parent_fails_iff [symmetric] by blast
  from archive_parent_Inl [OF step] obtain err where e: "e = Some err" by auto
  have "archive_parents W opts (c # qs) tr0 u d = (tr, Inl e)" using step by simp
  with assms(3) have "archive_parents W opts (ps @ c # qs) [] cURL (MountRoot opts) = (tr, Inl e)"
    by (simp add: archive_parents_append)
  with assms(2) have dirs: "archive_dirs W opts cURL = (tr, Inl e)"
    by (simp add: archive_dirs_def Let_def)
  from Archive_dirs_failed [OF assms(1) dirs] archive_dirs_ext(1) [OF dirs] step e
  show ?thesis by simp
qed

theorem Archive_fails_fast_witness:
  "Archive uploadfail_world flat_opts =
     ([CallUpload (blob_host_URL ''/c1/a'') (dir_Metadata flat_opts example_info),
       CallUpload (blob_host_URL ''/c1/a/b'') (dir_Metadata flat_opts example_info)],
      Return (0, Some (OtherError ''upload'')))"
proof -
  let ?tr0 = "[CallUpload (blob_host_URL ''/c1/a'') (dir_Metadata flat_opts example_info)]"
  have p: "url_Parse uploadfail_world (container_url flat_opts) = Some (blob_host_URL ''/c1'')"
    by (simp add: uploadfail_world_def healthy_world_def example_urls example_parses)
  have s: "butlast (strings_Split (BlobName flat_opts) CHR ''/'') = [''a''] @ ''b'' # []"
    by (simp add: flat_opts_def)
  have r1: "archive_parents uploadfail_world flat_opts [''a''] [] (blob_host_URL ''/c1'')
              (MountRoot flat_opts) = (?tr0, Inr (blob_host_URL ''/c1/a'', ''/mnt/fs/a''))"
    by (simp add: example_simps healthy_world_def uploadfail_world_def del: path_Join.simps)
  have r2: "archive_parent uploadfail_world flat_opts ?tr0 (blob_host_URL ''/c1/a'') ''/mnt/fs/a'' ''b''
              = (?tr0 @ [CallUpload (blob_host_URL ''/c1/a/b'') (dir_Metadata flat_opts example_info)],
                 Inl (Some (OtherError ''upload'')))"
    by (simp add: example_simps healthy_world_def uploadfail_world_def del: path_Join.simps)
  have f: "round_fails uploadfail_world flat_opts ?tr0 (blob_host_URL ''/c1/a'') ''/mnt/fs/a'' ''b''"
    unfolding archive_parent_fails_iff [symmetric] using r2 by blast
  from Archive_fails_fast [OF p s r1 f] show ?thesis unfolding r2 by simp
qed

text \<open>
  C10: when the directory loop has completed and the source file cannot be opened, or its
  status cannot be read, Archive returns no error value: both errors are dropped and the
  read of the size of the nil file info panics.
\<close>

theorem Archive_unreadable_source:
  assumes "url_Parse W (container_url opts) = Some cURL"
    and "archive_dirs W opts cURL = (tr, Inr st)"
    and "os_Open W tr (SourcePath opts) = Inl e \<or> os_Open W tr (SourcePath opts) = Inr (Inl e)"
  shows "Archive W opts = (tr, Panic)"
proof -
  from assms(3) have "source_FileInfo W tr (SourcePath opts) = None"
    by (auto simp: source_FileInfo_def)
  then have "archive_file W opts tr (appendToURLPath cURL (BlobName opts)) = (tr, Panic)"
    by (simp add: archive_file_def)
  with Archive_dirs_done [OF assms(1,2)] show ?thesis by simp
qed

theorem Archive_unreadable_source_witness:
  "Archive unreadable_world flat_opts =
     ([CallUpload (blob_host_URL ''/c1/a'') (dir_Metadata flat_opts example_info),
       CallUpload (blob_host_URL ''/c1/a/b'') (dir_Metadata flat_opts example_info)],
      Panic)"
proof -
  have p: "url_Parse unreadable_world (container_url flat_opts) = Some (blob_host_URL ''/c1'')"
    by (simp add: unreadable_world_def healthy_world_def example_urls example_parses)
  have o: "os_Open unreadable_world
             [CallUpload (blob_host_URL ''/c1/a'') (dir_Metadata flat_opts example_info),
              CallUpload (blob_host_URL ''/c1/a/b'') (dir_Metadata flat_opts example_info)]
             (SourcePath flat_opts) = Inl (OtherError ''ENOENT'')
           \<or> os_Open unreadable_world
             [CallUpload (blob_host_URL ''/c1/a'') (dir_Metadata flat_opts example_info),
              CallUpload (blob_host_URL ''/c1/a/b'') (dir_Metadata flat_opts example_info)]
             (SourcePath flat_opts) = Inr (Inl (OtherError ''ENOENT''))"
    by (simp add: unreadable_world_def healthy_world_def flat_opts_def)
  from Archive_unreadable_source [OF p dirs_unreadable_flat o] show ?thesis .
qed


lemma Remove_url_example:
  "Remove_url remove_opts = ''https://acct.blob.core.windows.net/c1/export1/a/b/file.txt?sv=1''"
  by (simp add: Remove_url_def remove_opts_def example_joins del: path_Join.simps)


lemma Mover_invoke_const:
  "Mover_invoke c \<lparr>fsName = fs, archiveID = aid\<rparr>
     = (Mover_expected fs aid c, \<lparr>fsName = fs, archiveID = aid\<rparr>)"
  by (cases c) (simp_all add: FsName_def ArchiveID_def)

text \<open>
  C9: a mover built from a filesystem name and an archive ID answers every call of
  FsName and ArchiveID, in any sequence of calls, with the values it was built from, and
  is the same mover after the calls; so does the mover the no-op plugin builds from its
  archive flag.
\<close>

theorem Mover_identity_immutable:
  "FsName \<lparr>fsName = fs, archiveID = aid\<rparr> = (fs, \<lparr>fsName = fs, archiveID = aid\<rparr>)
   \<and> ArchiveID \<lparr>fsName = fs, archiveID = aid\<rparr> = (aid, \<lparr>fsName = fs, archiveID = aid\<rparr>)
   \<and> Mover_run calls \<lparr>fsName = fs, archiveID = aid\<rparr>
       = (map (Mover_expected fs aid) calls, \<lparr>fsName = fs, archiveID = aid\<rparr>)
   \<and> Mover_run calls (noop_Mover archive)
       = (map (Mover_expected ''noop'' (ucast archive)) calls, noop_Mover archive)"
proof -
  have "Mover_run calls \<lparr>fsName = fs, archiveID = aid\<rparr>
       = (map (Mover_expected fs aid) calls, \<lparr>fsName = fs, archiveID = aid\<rparr>)"
    by (induction calls) (simp_all add: Mover_invoke_const)
  moreover have "Mover_run calls (noop_Mover archive)
       = (map (Mover_expected ''noop'' (ucast archive)) calls, noop_Mover archive)"
    unfolding noop_Mover_def by (induction calls) (simp_all add: Mover_invoke_const)
  ultimately show ?thesis by (simp add: FsName_def ArchiveID_def)
qed




lemma example_blobURL:
  "appendToURLPath (blob_host_URL ''/c1'') (BlobName hns_opts) = blob_host_URL ''/c1/a/b/file.txt''"
  "appendToURLPath (blob_host_URL ''/c1'') (BlobName flat_opts) = blob_host_URL ''/c1/a/b/file.txt''"
  by (simp_all add: appendToURLPath_def blob_host_URL_def hns_opts_def flat_opts_def)

lemma example_source:
  "source_FileInfo healthy_world tr p = Some example_info"
  "source_FileInfo aclfail_world tr p = Some example_info"
  by (simp_all add: source_FileInfo_def healthy_world_def aclfail_world_def)

lemma example_opts:
  "HNSEnabled hns_opts" "\<not> HNSEnabled flat_opts"
  "BlockSize hns_opts = 1048576" "Parallelism hns_opts = 4"
  "BlockSize flat_opts = 1048576" "Parallelism flat_opts = 4"
  by (simp_all add: hns_opts_def flat_opts_def)











lemma example_world_parses:
  "url_Parse healthy_world (container_url flat_opts) = Some (blob_host_URL ''/c1'')"
  "url_Parse healthy_world (container_url hns_opts) = Some (blob_host_URL ''/c1'')"
  "url_Parse healthy_world (container_url double_slash_opts) = Some (blob_host_URL ''/c1'')"
  "url_Parse notfound_world (container_url hns_opts) = Some (blob_host_URL ''/c1'')"
  by (simp_all add: healthy_world_def notfound_world_def example_urls example_parses)




lemma example_world_parses2:
  "url_Parse healthy_world (container_url top_level_opts) = Some (blob_host_URL ''/c1'')"
  by (simp add: healthy_world_def top_level_opts_def flat_opts_def container_url_def example_parses)

lemma dirs_healthy_top_level:
  "archive_dirs healthy_world top_level_opts (blob_host_URL ''/c1'') =
     ([], Inr (blob_host_URL ''/c1'', ''/mnt/fs''))"
  by (simp add: archive_dirs_def Let_def top_level_opts_def flat_opts_def)

text \<open>
  C4, as amended: when the directory loop completes, it has sent exactly one placeholder
  upload for each of the \<open>k\<close> separators of the object name, to the paths obtained by
  joining the parent directories one after the other onto the container path (the
  shallowest first); when every parent directory name is an ordinary name (not empty, not
  \<open>.\<close> or \<open>..\<close>), the store path of each upload is a strict prefix of the store path of
  the next; and for an object name with no separator the loop sends no call at all.
\<close>

theorem replicator_uploads:
  assumes "archive_dirs W opts cURL = (tr, Inr st)"
  shows "upload_paths tr = join_chain (Path cURL) (butlast (strings_Split (BlobName opts) CHR ''/''))
    \<and> length (upload_paths tr) = count_list (BlobName opts) CHR ''/''
    \<and> ((\<forall>seg\<in>set (butlast (strings_Split (BlobName opts) CHR ''/'')). plain_elem seg) \<longrightarrow>
          successively strict_prefix (upload_paths tr))
    \<and> (count_list (BlobName opts) CHR ''/'' = 0 \<longrightarrow> tr = [] \<and> st = (cURL, MountRoot opts))"
proof -
  let ?ps = "butlast (strings_Split (BlobName opts) CHR ''/'')"
  from assms have loop: "archive_parents W opts ?ps [] cURL (MountRoot opts) = (tr, Inr st)"
    by (simp add: archive_dirs_def Let_def)
  from archive_parents_paths [OF loop]
  have paths: "upload_paths tr = join_chain (Path cURL) ?ps" by simp
  have len: "length ?ps = count_list (BlobName opts) CHR ''/''"
    unfolding length_butlast length_strings_Split by simp
  have "length (upload_paths tr) = count_list (BlobName opts) CHR ''/''"
    unfolding paths by (simp only: length_join_chain len)
  moreover have "(\<forall>seg\<in>set ?ps. plain_elem seg) \<longrightarrow> successively strict_prefix (upload_paths tr)"
    unfolding paths by (auto intro: join_chain_plain)
  moreover have "count_list (BlobName opts) CHR ''/'' = 0 \<longrightarrow> tr = [] \<and> st = (cURL, MountRoot opts)"
  proof
    assume z: "count_list (BlobName opts) CHR ''/'' = 0"
    have "length ?ps = 0" unfolding len by (rule z)
    then have "?ps = []" by (rule length_0_conv [THEN iffD1])
    with loop show "tr = [] \<and> st = (cURL, MountRoot opts)" by simp
  qed
  ultimately show ?thesis using paths by blast
qed

theorem replicator_uploads_witness:
  "(upload_paths (fst (archive_dirs healthy_world flat_opts (blob_host_URL ''/c1'')))
      = [''/c1/a'', ''/c1/a/b'']
    \<and> count_list (BlobName flat_opts) CHR ''/'' = 2
    \<and> successively strict_prefix
        (upload_paths (fst (archive_dirs healthy_world flat_opts (blob_host_URL ''/c1'')))))
   \<and> (count_list (BlobName top_level_opts) CHR ''/'' = 0
      \<and> archive_dirs healthy_world top_level_opts (blob_host_URL ''/c1'')
          = ([], Inr (blob_host_URL ''/c1'', MountRoot top_level_opts)))"
proof
  have pl: "\<forall>seg\<in>set (butlast (strings_Split (BlobName flat_opts) CHR ''/'')). plain_elem seg"
    by (simp add: flat_opts_def example_splits plain_elem_def)
  have cnt: "count_list (BlobName flat_opts) CHR ''/'' = 2" by (simp add: flat_opts_def)
  have T: "fst (archive_dirs healthy_world flat_opts (blob_host_URL ''/c1'')) =
      [CallUpload (blob_host_URL ''/c1/a'') (dir_Metadata flat_opts example_info),
       CallUpload (blob_host_URL ''/c1/a/b'') (dir_Metadata flat_opts example_info)]"
    by (simp add: dirs_healthy_flat)
  from replicator_uploads [OF dirs_healthy_flat] pl
  have S: "successively strict_prefix
      (upload_paths [CallUpload (blob_host_URL ''/c1/a'') (dir_Metadata flat_opts example_info),
         CallUpload (blob_host_URL ''/c1/a/b'') (dir_Metadata flat_opts example_info)])"
    by blast
  have U: "upload_paths
      [CallUpload (blob_host_URL ''/c1/a'') (dir_Metadata flat_opts example_info),
       CallUpload (blob_host_URL ''/c1/a/b'') (dir_Metadata flat_opts example_info)]
      = [''/c1/a'', ''/c1/a/b'']"
    by (simp add: blob_host_URL_def)
  show "upload_paths (fst (archive_dirs healthy_world flat_opts (blob_host_URL ''/c1'')))
      = [''/c1/a'', ''/c1/a/b'']
    \<and> count_list (BlobName flat_opts) CHR ''/'' = 2
    \<and> successively strict_prefix
        (upload_paths (fst (archive_dirs healthy_world flat_opts (blob_host_URL ''/c1''))))"
    unfolding T using S U cnt by simp
next
  have cnt: "count_list (BlobName top_level_opts) CHR ''/'' = 0"
    by (simp add: top_level_opts_def flat_opts_def)
  from replicator_uploads [OF dirs_healthy_top_level] cnt
  show "count_list (BlobName top_level_opts) CHR ''/'' = 0
      \<and> archive_dirs healthy_world top_level_opts (blob_host_URL ''/c1'')
          = ([], Inr (blob_host_URL ''/c1'', MountRoot top_level_opts))"
    by (simp add: dirs_healthy_top_level)
qed

text \<open>
  C4 as stated fails for the object name \<open>a//f\<close>: it has two separators and the two
  placeholder uploads go to the same store path, which is no strict prefix of itself. It
  also fails for a run that ends with an error: for \<open>a/b/file.txt\<close>, with two
  separators, no placeholder is uploaded when the first ACL fetch fails.
\<close>

theorem replicator_repeats_path:
  "count_list (BlobName double_slash_opts) CHR ''/'' = 2
   \<and> upload_paths (fst (archive_dirs healthy_world double_slash_opts (blob_host_URL ''/c1'')))
       = [''/c1/a'', ''/c1/a'']
   \<and> \<not> strict_prefix ''/c1/a'' ''/c1/a''
   \<and> count_list (BlobName hns_opts) CHR ''/'' = 2
   \<and> upload_paths (fst (archive_dirs notfound_world hns_opts (blob_host_URL ''/c1''))) = []"
  unfolding dirs_healthy_double_slash dirs_notfound_hns
  by (simp add: double_slash_opts_def hns_opts_def flat_opts_def blob_host_URL_def)

lemma Archive_healthy_flat:
  "Archive healthy_world flat_opts =
     ([CallUpload (blob_host_URL ''/c1/a'') (dir_Metadata flat_opts example_info),
       CallUpload (blob_host_URL ''/c1/a/b'') (dir_Metadata flat_opts example_info),
       CallUploadFileToBlockBlob (blob_host_URL ''/c1/a/b/file.txt'') 1048576 4
         (stat_Metadata Map.empty example_info)],
      Return (5, None))"
proof -
  have "Archive healthy_world flat_opts
          = archive_file healthy_world flat_opts
              [CallUpload (blob_host_URL ''/c1/a'') (dir_Metadata flat_opts example_info),
               CallUpload (blob_host_URL ''/c1/a/b'') (dir_Metadata flat_opts example_info)]
              (blob_host_URL ''/c1/a/b/file.txt'')"
    using Archive_dirs_done [OF example_world_parses(1) dirs_healthy_flat]
    by (simp add: example_blobURL)
  also have "\<dots> =
     ([CallUpload (blob_host_URL ''/c1/a'') (dir_Metadata flat_opts example_info),
       CallUpload (blob_host_URL ''/c1/a/b'') (dir_Metadata flat_opts example_info),
       CallUploadFileToBlockBlob (blob_host_URL ''/c1/a/b/file.txt'') 1048576 4
         (stat_Metadata Map.empty example_info)],
      Return (5, None))"
    by (simp add: archive_file_def Let_def example_source example_opts)
       (simp add: healthy_world_def example_info_def)
  finally show ?thesis .
qed

lemma Remove_healthy:
  "Remove healthy_world remove_opts =
     ([CallDelete (blob_host_URL ''/c1/export1/a/b/file.txt'') DeleteSnapshotsOptionInclude],
      Return None)"
  by (simp add: Remove_def Let_def Remove_url_example)
     (simp add: healthy_world_def example_parses)

text \<open>
  C1: with export prefix \<open>export1\<close>, mount root \<open>/mnt/fs\<close> and object name
  \<open>a/b/file.txt\<close> in container \<open>c1\<close>, Archive writes the placeholders \<open>a\<close> and
  \<open>a/b\<close> and the content \<open>a/b/file.txt\<close> directly under the container, without the
  export prefix, while Remove deletes \<open>export1/a/b/file.txt\<close>.
\<close>

theorem Archive_keys_lack_ExportPrefix:
  "ExportPrefix flat_opts = ''export1''
   \<and> Archive healthy_world flat_opts =
       ([CallUpload (blob_host_URL ''/c1/a'') (dir_Metadata flat_opts example_info),
         CallUpload (blob_host_URL ''/c1/a/b'') (dir_Metadata flat_opts example_info),
         CallUploadFileToBlockBlob (blob_host_URL ''/c1/a/b/file.txt'') 1048576 4
           (stat_Metadata Map.empty example_info)],
        Return (5, None))
   \<and> Remove healthy_world remove_opts =
       ([CallDelete (blob_host_URL ''/c1/export1/a/b/file.txt'') DeleteSnapshotsOptionInclude],
        Return None)"
proof (intro conjI)
  show "ExportPrefix flat_opts = ''export1''" by (simp add: flat_opts_def)
qed (rule Archive_healthy_flat Remove_healthy)+

lemma archive_parent_acl_error:
  assumes "HNSEnabled opts"
    and "os_Open W tr (path_Join [d, c]) = Inr (Inr dirInfo)"
    and "GetAccessControl W tr (u\<lparr>Path := path_Join [Path u, c]\<rparr>) = Inl e"
  shows "archive_parent W opts tr u d c =
           (tr @ [CallGetAccessControl (u\<lparr>Path := path_Join [Path u, c]\<rparr>)], Inl (Some e))"
  using assms by (simp add: archive_parent_def Let_def acl_fetch_failed_iff del: path_Join.simps)

text \<open>
  C2: in hierarchical-namespace mode, when the store answers the ACL fetch of the first
  parent directory with "blob not found", Archive returns \<open>(0, err)\<close> with that error
  after the fetch, before any placeholder is uploaded.
\<close>

theorem Archive_aborts_on_BlobNotFound:
  "GetAccessControl notfound_world [] (blob_host_URL ''/c1/a'')
     = Inl (StorageError ServiceCodeBlobNotFound)
   \<and> Archive notfound_world hns_opts =
       ([CallGetAccessControl (blob_host_URL ''/c1/a'')],
        Return (0, Some (StorageError ServiceCodeBlobNotFound)))"
  using Archive_dirs_failed [OF example_world_parses(4) dirs_notfound_hns]
  by (simp add: notfound_world_def ServiceCodeBlobNotFound_def)

end
